theory Spec2Isabelle
  imports Complex_Main "HOL-Library.Code_Target_Nat"
begin

section \<open>Text primitives\<close>

text \<open>
  A Python \<open>str\<close> is modelled as a list of code points below 256 (one \<open>char\<close> per code
  point), so \<open>length\<close> counts what \<open>len\<close> counts. On that range \<open>str.isspace\<close>, the
  regular-expression class \<open>\s\<close> and \<open>str.strip\<close> agree on the white-space characters
  (TAB..CR, FS..US, SPACE, NEL, NBSP), \<open>\d\<close> is \<open>0..9\<close>, and \<open>str.lower\<close> shifts
  \<open>A..Z\<close> and the upper-case letters \<open>0xC0..0xDE\<close> (without the multiplication sign
  \<open>0xD7\<close>) by 32.
\<close>

definition isspace :: "char \<Rightarrow> bool" where
  "isspace c = (let n = (of_char c :: nat) in
     (9 \<le> n \<and> n \<le> 13) \<or> (28 \<le> n \<and> n \<le> 32) \<or> n = 133 \<or> n = 160)"

definition isdigit :: "char \<Rightarrow> bool" where
  "isdigit c = (let n = (of_char c :: nat) in 48 \<le> n \<and> n \<le> 57)"

definition lower_chr :: "char \<Rightarrow> char" where
  "lower_chr c = (let n = (of_char c :: nat) in
     if (65 \<le> n \<and> n \<le> 90) \<or> (192 \<le> n \<and> n \<le> 222 \<and> n \<noteq> 215)
     then char_of (n + 32) else c)"

definition upper_chr :: "char \<Rightarrow> char" where
  "upper_chr c = (let n = (of_char c :: nat) in
     if (97 \<le> n \<and> n \<le> 122) \<or> (224 \<le> n \<and> n \<le> 254 \<and> n \<noteq> 247)
     then char_of (n - 32) else c)"

definition lower :: "string \<Rightarrow> string" where
  "lower s = map lower_chr s"

definition strip :: "string \<Rightarrow> string" where
  "strip s = rev (dropWhile isspace (rev (dropWhile isspace s)))"

text \<open>\<open>starts_with s w\<close> is \<open>s.startswith(w)\<close>; \<open>contains s w\<close> is Python's \<open>w in s\<close>.\<close>

fun starts_with :: "string \<Rightarrow> string \<Rightarrow> bool" where
  "starts_with s [] = True"
| "starts_with [] (w # ws) = False"
| "starts_with (c # cs) (w # ws) = (c = w \<and> starts_with cs ws)"

fun contains :: "string \<Rightarrow> string \<Rightarrow> bool" where
  "contains [] w = starts_with [] w"
| "contains (c # cs) w = (starts_with (c # cs) w \<or> contains cs w)"

section \<open>Regular expressions with backtracking priority\<close>

text \<open>
  The recogniser uses \<open>re.search\<close> and \<open>re.finditer\<close> on patterns built from literals,
  character sets, concatenation, alternation and the greedy quantifiers \<open>?\<close>, \<open>*\<close>,
  \<open>+\<close> and \<open>{m,n}\<close>. \<open>matches ic r s\<close> lists the remainders of \<open>s\<close> after every way
  of matching \<open>r\<close> at the front of \<open>s\<close>, in the order in which the backtracking engine
  tries them (left alternative first, more repetitions first); its head is the match
  the engine reports. \<open>ic\<close> is the flag \<open>re.IGNORECASE\<close>.
\<close>

datatype citem = Chr char | Rng char char | Space | Digit

datatype regex =
    Str string
  | Set "citem list"
  | NSet "citem list"
  | Seq regex regex
  | Alt regex regex
  | Opt regex
  | Star regex
  | Plus regex
  | Rep nat nat regex

fun item_match :: "citem \<Rightarrow> char \<Rightarrow> bool" where
  "item_match (Chr c) x = (x = c)"
| "item_match (Rng a b) x = ((of_char a :: nat) \<le> of_char x \<and> (of_char x :: nat) \<le> of_char b)"
| "item_match Space x = isspace x"
| "item_match Digit x = isdigit x"

text \<open>
  Under \<open>re.IGNORECASE\<close> a character matches an item when it, its lower-case or its
  upper-case form does.
\<close>

definition cmatch :: "bool \<Rightarrow> citem \<Rightarrow> char \<Rightarrow> bool" where
  "cmatch ic it x =
     (item_match it x \<or> (ic \<and> (item_match it (lower_chr x) \<or> item_match it (upper_chr x))))"

definition set_match :: "bool \<Rightarrow> citem list \<Rightarrow> char \<Rightarrow> bool" where
  "set_match ic its x = list_ex (\<lambda>it. cmatch ic it x) its"

fun str_match :: "bool \<Rightarrow> string \<Rightarrow> string \<Rightarrow> string option" where
  "str_match ic [] s = Some s"
| "str_match ic (w # ws) [] = None"
| "str_match ic (w # ws) (c # cs) = (if cmatch ic (Chr w) c then str_match ic ws cs else None)"

text \<open>
  Greedy iteration. Each round must consume at least one character, so \<open>length s\<close>
  rounds are enough; the bound is the first argument.
\<close>

primrec star_iter :: "nat \<Rightarrow> (string \<Rightarrow> string list) \<Rightarrow> string \<Rightarrow> string list" where
  "star_iter 0 f s = [s]"
| "star_iter (Suc n) f s =
     concat (map (\<lambda>t. if length t < length s then star_iter n f t else []) (f s)) @ [s]"

primrec rep_iter :: "nat \<Rightarrow> nat \<Rightarrow> (string \<Rightarrow> string list) \<Rightarrow> string \<Rightarrow> string list" where
  "rep_iter 0 lo f s = (if lo = 0 then [s] else [])"
| "rep_iter (Suc hi) lo f s =
     concat (map (rep_iter hi (lo - 1) f) (f s)) @ (if lo = 0 then [s] else [])"

primrec matches :: "bool \<Rightarrow> regex \<Rightarrow> string \<Rightarrow> string list" where
  "matches ic (Str w) s = (case str_match ic w s of None \<Rightarrow> [] | Some t \<Rightarrow> [t])"
| "matches ic (Set its) s =
     (case s of [] \<Rightarrow> [] | x # xs \<Rightarrow> if set_match ic its x then [xs] else [])"
| "matches ic (NSet its) s =
     (case s of [] \<Rightarrow> [] | x # xs \<Rightarrow> if set_match ic its x then [] else [xs])"
| "matches ic (Seq a b) s = concat (map (matches ic b) (matches ic a s))"
| "matches ic (Alt a b) s = matches ic a s @ matches ic b s"
| "matches ic (Opt a) s = matches ic a s @ [s]"
| "matches ic (Star a) s = star_iter (length s) (matches ic a) s"
| "matches ic (Plus a) s =
     concat (map (\<lambda>t. star_iter (length t) (matches ic a) t) (matches ic a s))"
| "matches ic (Rep lo hi a) s = rep_iter hi lo (matches ic a) s"

text \<open>
  \<open>re.search\<close>: the leftmost position with a match; the result is the start offset and
  \<open>group(0)\<close>. The first argument of \<open>search_from\<close> is the offset of the text that is
  left.
\<close>

primrec search_from :: "bool \<Rightarrow> regex \<Rightarrow> nat \<Rightarrow> string \<Rightarrow> (nat \<times> string) option" where
  "search_from ic r i [] = (case matches ic r [] of [] \<Rightarrow> None | t # _ \<Rightarrow> Some (i, []))"
| "search_from ic r i (c # cs) =
     (case matches ic r (c # cs) of
        [] \<Rightarrow> search_from ic r (Suc i) cs
      | t # _ \<Rightarrow> Some (i, take (Suc (length cs) - length t) (c # cs)))"

definition re_search :: "bool \<Rightarrow> regex \<Rightarrow> string \<Rightarrow> (nat \<times> string) option" where
  "re_search ic r s = search_from ic r 0 s"

text \<open>
  \<open>re.finditer\<close>: the successive non-overlapping matches. After an empty match the scan
  moves on by one character.
\<close>

function finditer_from :: "bool \<Rightarrow> regex \<Rightarrow> nat \<Rightarrow> string \<Rightarrow> (nat \<times> string) list" where
  "finditer_from ic r i s =
     (case search_from ic r i s of
        None \<Rightarrow> []
      | Some (st, g) \<Rightarrow>
          (st, g) # (if s = [] then []
                     else finditer_from ic r (st + max 1 (length g))
                            (drop (st - i + max 1 (length g)) s)))"
  by pat_completeness auto
termination
  by (relation "measure (\<lambda>(ic, r, i, s). length s)") (auto simp: max_def neq_Nil_conv)

definition finditer :: "bool \<Rightarrow> regex \<Rightarrow> string \<Rightarrow> (nat \<times> string) list" where
  "finditer ic r s = finditer_from ic r 0 s"

text \<open>Pattern-building shorthands.\<close>

fun seq :: "regex list \<Rightarrow> regex" where
  "seq [] = Str []"
| "seq [r] = r"
| "seq (r # rs) = Seq r (seq rs)"

fun alts :: "regex list \<Rightarrow> regex" where
  "alts [] = Set []"
| "alts [r] = r"
| "alts (r # rs) = Alt r (alts rs)"

definition words :: "string list \<Rightarrow> regex" where
  "words ws = alts (map Str ws)"

definition ws1 :: regex where
  "ws1 = Plus (Set [Space])"

definition ws0 :: regex where
  "ws0 = Star (Set [Space])"

section \<open>Data model (intent_recognition.py)\<close>

datatype IntentType =
  CALENDAR | EMAIL | REMINDER | WEATHER | NEWS | SEARCH | GENERAL_CHAT | UNKNOWN

text \<open>The enumeration's \<open>.value\<close>.\<close>

fun type_value :: "IntentType \<Rightarrow> string" where
  "type_value CALENDAR = ''calendar''"
| "type_value EMAIL = ''email''"
| "type_value REMINDER = ''reminder''"
| "type_value WEATHER = ''weather''"
| "type_value NEWS = ''news''"
| "type_value SEARCH = ''search''"
| "type_value GENERAL_CHAT = ''general_chat''"
| "type_value UNKNOWN = ''unknown''"

text \<open>
  Confidences are Python floats in the source; the model computes with exact rationals.
\<close>

record Entity =
  etype :: string
  evalue :: string
  econfidence :: rat
  start_pos :: nat
  end_pos :: nat

record Intent =
  itype :: IntentType
  iconfidence :: rat
  entities :: "Entity list"
  raw_text :: string
  action :: "string option"

text \<open>
  Exceptions are values. The only operation of the recogniser that can raise is the
  division in \<open>_calculate_confidence\<close>. A capability handler can raise anything:
  \<open>Raised\<close> is an exception of a subclass of \<open>Exception\<close>, with its message;
  \<open>CancelledError\<close> (of asyncio, raised at an \<open>await\<close> when the task is cancelled),
  \<open>KeyboardInterrupt\<close> and \<open>SystemExit\<close> derive from \<open>BaseException\<close> only.
  \<open>is_exception e\<close> is \<open>isinstance(e, Exception)\<close>, and \<open>exn_str\<close> is \<open>str(e)\<close>.
\<close>

datatype exn =
  ZeroDivisionError | Raised string | CancelledError | KeyboardInterrupt | SystemExit

fun is_exception :: "exn \<Rightarrow> bool" where
  "is_exception ZeroDivisionError = True"
| "is_exception (Raised m) = True"
| "is_exception CancelledError = False"
| "is_exception KeyboardInterrupt = False"
| "is_exception SystemExit = False"

fun exn_str :: "exn \<Rightarrow> string" where
  "exn_str ZeroDivisionError = ''division by zero''"
| "exn_str (Raised m) = m"
| "exn_str CancelledError = []"
| "exn_str KeyboardInterrupt = []"
| "exn_str SystemExit = []"

section \<open>Pattern catalog (\<open>_load_patterns\<close>)\<close>

text \<open>
  The dictionary keeps insertion order, so it is an association list: intent type, then
  its pattern groups, each a list of trigger patterns and a list of actions. The patterns
  are transcribed construct by construct: a group of alternative words \<open>(?:a|b)\<close> is
  \<open>words\<close> (or \<open>alts\<close> when an alternative is not a plain word), \<open>\s+\<close> is \<open>ws1\<close>,
  \<open>\s*\<close> is \<open>ws0\<close>, \<open>x?\<close> is \<open>Opt\<close>, \<open>x+\<close> is \<open>Plus\<close>, \<open>x*\<close> is \<open>Star\<close> and
  \<open>x{m,n}\<close> is \<open>Rep m n\<close>. A blank inside a word (''set up'', ''look up'') is a literal
  blank.
\<close>

definition thing :: regex where
  "thing = words [''meeting'', ''appointment'', ''event'']"

definition my_the :: regex where
  "my_the = words [''my'', ''the'']"

definition calendar_patterns :: "regex list" where
  "calendar_patterns = [
     seq [words [''schedule'', ''create'', ''add'', ''set up'', ''book''], ws1,
          Opt (seq [Str ''a'', ws1]), thing],
     seq [words [''what'', ''when''], ws1, words [''is'', ''are''], ws1, my_the, ws1,
          words [''next'', ''upcoming''], ws1, thing],
     seq [words [''cancel'', ''delete'', ''remove''], ws1, my_the, ws1, thing],
     seq [words [''reschedule'', ''move'', ''change''], ws1, my_the, ws1, thing],
     seq [words [''check'', ''show'', ''list''], ws1, my_the, ws1,
          words [''calendar'', ''schedule'', ''appointments'']]]"

definition this_the :: regex where
  "this_the = Opt (alts [seq [Str ''this'', ws1], seq [Str ''the'', ws1]])"

definition email_patterns :: "regex list" where
  "email_patterns = [
     seq [words [''send'', ''compose'', ''write''], ws1,
          Opt (seq [Str ''a'', Opt (Str ''n''), ws1]), Str ''email''],
     seq [words [''check'', ''read'', ''show''], ws1, Opt (seq [Str ''my'', ws1]),
          words [''email'', ''inbox'', ''messages'']],
     seq [words [''reply'', ''respond''], ws1, Str ''to'', ws1,
          Opt (seq [Str ''the'', ws1]), Str ''email''],
     seq [words [''forward'', ''share''], ws1, this_the, Str ''email''],
     seq [words [''delete'', ''remove''], ws1, this_the, Str ''email'']]"

definition reminder_patterns :: "regex list" where
  "reminder_patterns = [
     seq [words [''remind'', ''alert''], ws1, Str ''me'', ws1, words [''to'', ''about'']],
     seq [words [''set'', ''create'', ''add''], ws1, Opt (seq [Str ''a'', ws1]),
          words [''reminder'', ''alert'', ''notification'']],
     seq [alts [seq [Str ''don't'', ws1, Str ''forget''], Str ''remember''], ws1, Str ''to''],
     seq [words [''what'', ''show''], ws1, Opt (seq [Str ''are'', ws1]),
          Opt (seq [Str ''my'', ws1]), words [''reminders'', ''alerts'', ''tasks'']],
     seq [words [''cancel'', ''delete'', ''remove''], ws1, Opt (seq [Str ''the'', ws1]),
          words [''reminder'', ''alert'']]]"

definition weather_patterns :: "regex list" where
  "weather_patterns = [
     seq [words [''what'', ''how''], ws1, words [''is'', ''will''], ws1,
          Opt (seq [Str ''the'', ws1]), Str ''weather''],
     seq [Opt (seq [Str ''weather'', ws1]), words [''forecast'', ''report'', ''conditions'']],
     seq [alts [seq [Str ''is'', ws1, Str ''it''], seq [Str ''will'', ws1, Str ''it'']], ws1,
          words [''rain'', ''snow'', ''sunny'', ''cloudy'']],
     seq [words [''temperature'', ''temp''], ws1, words [''today'', ''tomorrow'', ''outside'']],
     seq [alts [seq [Str ''should'', ws1, Str ''i''],
                seq [Str ''do'', ws1, Str ''i'', ws1, Str ''need'']], ws1,
          Opt (seq [Str ''bring'', ws1]), Opt (seq [Str ''a'', Opt (Str ''n''), ws1]),
          words [''umbrella'', ''jacket'', ''coat'']]]"

definition news_patterns :: "regex list" where
  "news_patterns = [
     seq [words [''what'', ''show''], ws1, words [''is'', ''are''], ws1,
          Opt (seq [Str ''the'', ws1]), Opt (seq [Str ''latest'', ws1]), Str ''news''],
     seq [words [''news'', ''headlines'', ''updates''], ws1, words [''about'', ''on'', ''for'']],
     seq [words [''what'', ''anything''], ws1, words [''new'', ''happening''], ws1,
          words [''in'', ''about'', ''with'']],
     seq [Opt (seq [Str ''current'', ws1]), words [''events'', ''affairs'', ''happenings'']],
     seq [words [''breaking'', ''latest''], ws1, Str ''news'']]"

definition search_patterns :: "regex list" where
  "search_patterns = [
     seq [words [''search'', ''look up'', ''find'', ''google''], ws1,
          Opt (seq [Str ''for'', ws1])],
     seq [words [''what'', ''who'', ''where'', ''when'', ''why'', ''how''], ws1,
          words [''is'', ''are'', ''was'', ''were'', ''do'', ''does'', ''did'']],
     seq [words [''tell'', ''show''], ws1, Str ''me'', ws1,
          alts [Str ''about'', seq [Str ''more'', ws1, Str ''about'']]],
     seq [words [''information'', ''info'', ''details''], ws1, words [''about'', ''on'', ''for'']],
     seq [Opt (seq [Str ''can'', ws1, Str ''you'', ws1]),
          Opt (seq [Str ''help'', ws1, Str ''me'', ws1]), words [''find'', ''locate'']]]"

definition patterns :: "(IntentType \<times> (regex list \<times> string list) list) list" where
  "patterns = [
     (CALENDAR, [(calendar_patterns, [''create'', ''read'', ''update'', ''delete'', ''list''])]),
     (EMAIL, [(email_patterns, [''send'', ''read'', ''reply'', ''forward'', ''delete''])]),
     (REMINDER, [(reminder_patterns, [''create'', ''read'', ''update'', ''delete'', ''list''])]),
     (WEATHER, [(weather_patterns, [''current'', ''forecast'', ''conditions''])]),
     (NEWS, [(news_patterns, [''headlines'', ''search'', ''category''])]),
     (SEARCH, [(search_patterns, [''web_search'', ''information'', ''lookup''])])]"

section \<open>Entity extractors (\<open>_load_entity_extractors\<close>)\<close>

definition digit :: regex where
  "digit = Set [Digit]"

definition upper_az :: regex where
  "upper_az = Set [Rng CHR ''A'' CHR ''Z'']"

definition lower_az :: regex where
  "lower_az = Set [Rng CHR ''a'' CHR ''z'']"

text \<open>\<open>[A-Z][a-z]+(?:\s+[A-Z][a-z]+)*\<close>\<close>

definition cap_words :: regex where
  "cap_words = seq [upper_az, Plus lower_az, Star (seq [ws1, upper_az, Plus lower_az])]"

definition plural :: "string \<Rightarrow> regex" where
  "plural w = Seq (Str w) (Opt (Str ''s''))"

definition not_punct :: regex where
  "not_punct = Plus (NSet [Chr CHR '','', Chr CHR ''.'', Chr CHR ''!'', Chr CHR ''?''])"

definition datetime_patterns :: "regex list" where
  "datetime_patterns = [
     words [''today'', ''tomorrow'', ''yesterday''],
     words [''monday'', ''tuesday'', ''wednesday'', ''thursday'', ''friday'', ''saturday'',
            ''sunday''],
     words [''january'', ''february'', ''march'', ''april'', ''may'', ''june'', ''july'',
            ''august'', ''september'', ''october'', ''november'', ''december''],
     seq [Rep 1 2 digit, Str '':'', Rep 2 2 digit, Opt (seq [ws0, words [''am'', ''pm'']])],
     seq [Rep 1 2 digit, Str ''/'', Rep 1 2 digit, Opt (seq [Str ''/'', Rep 2 4 digit])],
     seq [Opt (seq [Str ''in'', ws1]), Plus digit, ws1,
          alts [plural ''minute'', plural ''hour'', plural ''day'', plural ''week'',
                plural ''month'']],
     seq [words [''next'', ''this''], ws1, words [''week'', ''month'', ''year'']],
     seq [Opt (seq [Str ''at'', ws1]), Rep 1 2 digit, Opt (seq [Str '':'', Rep 2 2 digit]),
          ws0, words [''am'', ''pm'']]]"

definition location_patterns :: "regex list" where
  "location_patterns = [
     seq [words [''in'', ''at'', ''near'', ''around''], ws1, cap_words],
     seq [upper_az, Plus lower_az, Str '','', ws0, Rep 2 2 upper_az],
     seq [Plus digit, ws1,
          Plus (Set [Rng CHR ''A'' CHR ''Z'', Rng CHR ''a'' CHR ''z'', Space]),
          words [''Street'', ''St'', ''Avenue'', ''Ave'', ''Road'', ''Rd'', ''Boulevard'',
                 ''Blvd'']]]"

definition person_patterns :: "regex list" where
  "person_patterns = [
     seq [words [''with'', ''to'', ''from''], ws1, cap_words],
     seq [upper_az, Plus lower_az, Str ''@'', Plus lower_az, Str ''.'', Plus lower_az]]"

definition duration_patterns :: "regex list" where
  "duration_patterns = [
     seq [Plus digit, ws1,
          alts [plural ''minute'', plural ''hour'', plural ''day'', plural ''week'',
                plural ''month'', plural ''year'']],
     seq [Opt (seq [Str ''for'', ws1]), Plus digit, ws0,
          words [''min'', ''hr'', ''h'', ''d'', ''w'', ''m'', ''y'']],
     seq [Opt (alts [seq [Str ''half'', ws1, Str ''a'', Opt (Str ''n''), ws1],
                     seq [Str ''quarter'', ws1]]), Str ''hour'']]"

definition topic_patterns :: "regex list" where
  "topic_patterns = [
     seq [words [''about'', ''regarding'', ''concerning''], ws1, not_punct],
     seq [words [''subject'', ''topic''], Str '':'', ws0, not_punct]]"

definition entity_extractors :: "(string \<times> regex list) list" where
  "entity_extractors = [
     (''datetime'', datetime_patterns),
     (''location'', location_patterns),
     (''person'', person_patterns),
     (''duration'', duration_patterns),
     (''topic'', topic_patterns)]"

section \<open>The recogniser (\<open>IntentRecognizer\<close>)\<close>

text \<open>
  \<open>_calculate_confidence\<close>. A match is the pair of its start offset and \<open>group(0)\<close>.
  The division raises on an empty text.
\<close>

definition calculate_confidence :: "nat \<times> string \<Rightarrow> string \<Rightarrow> exn + rat" where
  "calculate_confidence m text =
     (let base_confidence = (if snd m = text then 8/10 + 15/100 else 8/10);
          match_length = length (snd m);
          text_length = length text
      in if text_length = 0 then Inl ZeroDivisionError
         else Inr (min (base_confidence + (of_nat match_length / of_nat text_length) * (1/10)) 1))"

definition extract_action :: "string \<Rightarrow> string list \<Rightarrow> string option" where
  "extract_action text possible_actions =
     (case find (contains text) possible_actions of
        Some a \<Rightarrow> Some a
      | None \<Rightarrow>
          if list_ex (contains text)
               [''create'', ''add'', ''set'', ''schedule'', ''send'', ''compose'']
          then Some ''create''
          else if list_ex (contains text)
               [''show'', ''list'', ''check'', ''read'', ''what'', ''when'']
          then Some ''read''
          else if list_ex (contains text)
               [''update'', ''change'', ''modify'', ''edit'', ''reschedule'']
          then Some ''update''
          else if list_ex (contains text) [''delete'', ''remove'', ''cancel'']
          then Some ''delete''
          else (case possible_actions of [] \<Rightarrow> None | a # _ \<Rightarrow> Some a))"

definition chat_indicators :: "string list" where
  "chat_indicators = [
     ''hello'', ''hi'', ''hey'', ''good morning'', ''good afternoon'', ''good evening'',
     ''how are you'', ''what's up'', ''thanks'', ''thank you'', ''please'', ''sorry'',
     ''yes'', ''no'', ''okay'', ''ok'', ''sure'', ''maybe'', ''i think'', ''i believe'']"

definition is_general_chat :: "string \<Rightarrow> bool" where
  "is_general_chat text = list_ex (contains text) chat_indicators"

definition extract_entities :: "string \<Rightarrow> Entity list" where
  "extract_entities text =
     concat (map (\<lambda>(entity_type, pats).
       concat (map (\<lambda>pattern.
         map (\<lambda>(st, g). \<lparr>etype = entity_type, evalue = strip g, econfidence = 8/10,
                          start_pos = st, end_pos = st + length g\<rparr>)
             (finditer True pattern text)) pats)) entity_extractors)"

text \<open>
  The three nested loops of \<open>recognize_intent\<close> thread the running best
  \<open>(best_intent, best_confidence, best_action)\<close>; an exception ends them.
\<close>

type_synonym best = "IntentType \<times> rat \<times> string option"

primrec fold_exn :: "('a \<Rightarrow> 's \<Rightarrow> exn + 's) \<Rightarrow> 'a list \<Rightarrow> 's \<Rightarrow> exn + 's" where
  "fold_exn f [] s = Inr s"
| "fold_exn f (x # xs) s = (case f x s of Inl e \<Rightarrow> Inl e | Inr s' \<Rightarrow> fold_exn f xs s')"

definition try_pattern :: "string \<Rightarrow> IntentType \<Rightarrow> string list \<Rightarrow> regex \<Rightarrow> best \<Rightarrow> exn + best" where
  "try_pattern text_lower intent_type actions pattern b =
     (case re_search False pattern text_lower of
        None \<Rightarrow> Inr b
      | Some m \<Rightarrow>
          (case calculate_confidence m text_lower of
             Inl e \<Rightarrow> Inl e
           | Inr confidence \<Rightarrow>
               if confidence > fst (snd b)
               then Inr (intent_type, confidence, extract_action text_lower actions)
               else Inr b))"

definition classify :: "string \<Rightarrow> exn + best" where
  "classify text_lower =
     fold_exn (\<lambda>(intent_type, pattern_groups).
       fold_exn (\<lambda>(pats, actions).
         fold_exn (try_pattern text_lower intent_type actions) pats) pattern_groups)
       patterns (UNKNOWN, 0, None)"

definition recognize_intent :: "string \<Rightarrow> exn + Intent" where
  "recognize_intent text =
     (let text_lower = strip (lower text) in
      case classify text_lower of
        Inl e \<Rightarrow> Inl e
      | Inr (best_intent, best_confidence, best_action) \<Rightarrow>
          (let chat = (best_intent = UNKNOWN \<and> is_general_chat text_lower)
           in Inr \<lparr>itype = (if chat then GENERAL_CHAT else best_intent),
                   iconfidence = (if chat then 7/10 else best_confidence),
                   entities = extract_entities text,
                   raw_text = text,
                   action = best_action\<rparr>))"

definition requirements :: "(IntentType \<times> (string \<times> string list) list) list" where
  "requirements = [
     (CALENDAR, [(''create'', [''datetime'']), (''read'', []), (''update'', [''datetime'']),
                 (''delete'', [''datetime'']), (''list'', [])]),
     (EMAIL, [(''send'', [''person'', ''topic'']), (''read'', []), (''reply'', [''topic'']),
              (''forward'', [''person'']), (''delete'', [])]),
     (REMINDER, [(''create'', [''datetime'', ''topic'']), (''read'', []),
                 (''update'', [''datetime'', ''topic'']), (''delete'', [''topic'']),
                 (''list'', [])]),
     (WEATHER, [(''current'', []), (''forecast'', [''datetime'']),
                (''conditions'', [''location''])]),
     (NEWS, [(''headlines'', []), (''search'', [''topic'']), (''category'', [''topic''])]),
     (SEARCH, [(''web_search'', [''topic'']), (''information'', [''topic'']),
               (''lookup'', [''topic''])])]"

text \<open>The action may be \<open>None\<close>, which is no key of any requirement table.\<close>

definition get_required_entities :: "IntentType \<Rightarrow> string option \<Rightarrow> string list" where
  "get_required_entities intent_type act =
     (case map_of requirements intent_type of
        None \<Rightarrow> []
      | Some table \<Rightarrow>
          (case act of
             None \<Rightarrow> []
           | Some a \<Rightarrow> (case map_of table a of None \<Rightarrow> [] | Some req \<Rightarrow> req)))"

section \<open>The coordinator (assistant_service.py)\<close>

definition check_missing_entities :: "Entity list \<Rightarrow> string list \<Rightarrow> string list" where
  "check_missing_entities ents required_entities =
     (let entity_types = map etype ents
      in filter (\<lambda>req. req \<notin> set entity_types) required_entities)"

definition questions :: "(IntentType \<times> (string \<times> string) list) list" where
  "questions = [
     (WEATHER, [
        (''location'', ''Which city or location would you like the weather for?''),
        (''datetime'', ''For what date would you like the weather forecast?'')]),
     (REMINDER, [
        (''topic'', ''What would you like me to remind you about?''),
        (''datetime'',
         ''When would you like to be reminded? (e.g., 'tomorrow at 3pm', 'in 2 hours')'')]),
     (SEARCH, [
        (''topic'', ''What would you like me to search for?'')]),
     (CALENDAR, [
        (''datetime'',
         ''When would you like to schedule this? (e.g., 'tomorrow at 2pm', 'next Monday')''),
        (''topic'', ''What is this meeting or event about?'')]),
     (EMAIL, [
        (''person'', ''Who would you like to send this email to?''),
        (''topic'', ''What is the subject or content of the email?'')])]"

text \<open>\<open>sep.join(xs)\<close>\<close>

fun join :: "string \<Rightarrow> string list \<Rightarrow> string" where
  "join sep [] = []"
| "join sep [x] = x"
| "join sep (x # xs) = x @ sep @ join sep xs"

definition intent_questions :: "IntentType \<Rightarrow> (string \<times> string) list" where
  "intent_questions intent_type =
     (case map_of questions intent_type of None \<Rightarrow> [] | Some qs \<Rightarrow> qs)"

definition generate_followup_question :: "IntentType \<Rightarrow> string option \<Rightarrow> string list \<Rightarrow> string" where
  "generate_followup_question intent_type act missing_entities =
     (case missing_entities of
        [entity] \<Rightarrow>
          (case map_of (intent_questions intent_type) entity of
             Some q \<Rightarrow> q
           | None \<Rightarrow> ''I need more information about the '' @ entity @ ''.'')
      | _ \<Rightarrow>
          ''I need to know: '' @
          join '', '' (map (\<lambda>entity. case map_of (intent_questions intent_type) entity of
                                       Some q \<Rightarrow> q | None \<Rightarrow> entity) missing_entities))"

type_synonym payload = "(string \<times> string) list"

record AssistantRequest =
  req_text :: string
  user_id :: string
  req_context :: payload

record HandlerResponse =
  h_success :: bool
  h_message :: string
  h_data :: "payload option"
  h_error :: "string option"
  h_requires_followup :: bool
  h_followup_question :: "string option"

record AssistantResponse =
  success :: bool
  message :: string
  intent_type :: string
  confidence :: rat
  data :: "payload option"
  error :: "string option"
  requires_followup :: bool
  followup_question :: "string option"
  is_assistant_task :: bool

text \<open>
  The capability handlers are outside the repository's core: \<open>execute\<close> is a function that
  returns a \<open>HandlerResponse\<close> or raises. The registry \<open>self.handlers\<close> is a map from
  intent types to handlers; the reference registry wires three of them.
\<close>

type_synonym handler = "Intent \<Rightarrow> Entity list \<Rightarrow> payload \<Rightarrow> exn + HandlerResponse"

definition reference_handlers :: "handler \<Rightarrow> handler \<Rightarrow> handler \<Rightarrow> (IntentType \<rightharpoonup> handler)" where
  "reference_handlers weather_handler reminder_handler search_handler =
     [WEATHER \<mapsto> weather_handler, REMINDER \<mapsto> reminder_handler, SEARCH \<mapsto> search_handler]"

definition confidence_threshold :: rat where
  "confidence_threshold = 6/10"

definition error_response :: "exn \<Rightarrow> AssistantResponse" where
  "error_response e =
     \<lparr>success = False,
      message = ''I encountered an error while processing your request. Please try again.'',
      intent_type = ''error'',
      confidence = 0,
      data = None,
      error = Some (exn_str e),
      requires_followup = False,
      followup_question = None,
      is_assistant_task = True\<rparr>"

text \<open>
  \<open>process_request_body\<close> is the \<open>try\<close> block of \<open>process_request\<close>: a raise of the
  recogniser or of the awaited handler leaves it. \<open>process_request\<close> adds the clause
  \<open>except Exception\<close>, which turns an exception of class \<open>Exception\<close> into the error
  response and lets every other one pass to the caller (the result \<open>Inl\<close>).
\<close>

definition process_request_body :: "(IntentType \<rightharpoonup> handler) \<Rightarrow> AssistantRequest \<Rightarrow> exn + AssistantResponse" where
  "process_request_body handlers request =
     (case recognize_intent (req_text request) of
        Inl e \<Rightarrow> Inl e
      | Inr intent \<Rightarrow>
          if \<not> (itype intent \<noteq> UNKNOWN \<and> itype intent \<noteq> GENERAL_CHAT \<and>
                 iconfidence intent \<ge> confidence_threshold)
          then Inr \<lparr>success = True,
                message = ''This doesn't appear to be a personal assistant task. '' @
                          ''I'll handle it as a general conversation.'',
                intent_type = type_value (itype intent),
                confidence = iconfidence intent,
                data = None, error = None, requires_followup = False,
                followup_question = None, is_assistant_task = False\<rparr>
          else
            (case handlers (itype intent) of
               None \<Rightarrow>
                 Inr \<lparr>success = False,
                  message = ''I understand you want help with '' @ type_value (itype intent) @
                            '', but that feature isn't available yet.'',
                  intent_type = type_value (itype intent),
                  confidence = iconfidence intent,
                  data = None,
                  error = Some (''No handler available for '' @ type_value (itype intent)),
                  requires_followup = False, followup_question = None,
                  is_assistant_task = True\<rparr>
             | Some handler \<Rightarrow>
                 (let required_entities = get_required_entities (itype intent) (action intent);
                      missing_entities = check_missing_entities (entities intent) required_entities
                  in if missing_entities \<noteq> []
                     then Inr \<lparr>success = True,
                           message = ''I need a bit more information to help you with that.'',
                           intent_type = type_value (itype intent),
                           confidence = iconfidence intent,
                           data = None, error = None, requires_followup = True,
                           followup_question =
                             Some (generate_followup_question (itype intent) (action intent)
                                     missing_entities),
                           is_assistant_task = True\<rparr>
                     else
                       (case handler intent (entities intent) (req_context request) of
                          Inl e \<Rightarrow> Inl e
                        | Inr handler_response \<Rightarrow>
                            Inr \<lparr>success = h_success handler_response,
                             message = h_message handler_response,
                             intent_type = type_value (itype intent),
                             confidence = iconfidence intent,
                             data = h_data handler_response,
                             error = h_error handler_response,
                             requires_followup = h_requires_followup handler_response,
                             followup_question = h_followup_question handler_response,
                             is_assistant_task = True\<rparr>))))"

definition process_request :: "(IntentType \<rightharpoonup> handler) \<Rightarrow> AssistantRequest \<Rightarrow> exn + AssistantResponse" where
  "process_request handlers request =
     (case process_request_body handlers request of
        Inl e \<Rightarrow> if is_exception e then Inr (error_response e) else Inl e
      | Inr response \<Rightarrow> Inr response)"

section \<open>Notions used to state the properties\<close>

text \<open>
  The traversal order of the three loops, flattened: every trigger pattern with the
  intent type and the action list of its group.
\<close>

definition traversal :: "(IntentType \<times> string list \<times> regex) list" where
  "traversal =
     concat (map (\<lambda>(ty, groups).
       concat (map (\<lambda>(pats, acts). map (\<lambda>p. (ty, acts, p)) pats) groups)) patterns)"

text \<open>
  The candidate of one pattern on a text, if the pattern matches: type, confidence
  and action. \<open>candidates\<close> lists them in traversal order.
\<close>

definition candidate :: "string \<Rightarrow> IntentType \<times> string list \<times> regex \<Rightarrow> best option" where
  "candidate t x =
     (case x of (ty, acts, p) \<Rightarrow>
        (case re_search False p t of
           None \<Rightarrow> None
         | Some m \<Rightarrow>
             (case calculate_confidence m t of
                Inl e \<Rightarrow> None
              | Inr c \<Rightarrow> Some (ty, c, extract_action t acts))))"

definition candidates :: "string \<Rightarrow> best list" where
  "candidates t = List.map_filter (candidate t) traversal"

definition keep_best :: "best \<Rightarrow> best \<Rightarrow> best" where
  "keep_best c b = (if fst (snd c) > fst (snd b) then c else b)"

text \<open>The white-space characters, and the patterns that cannot match inside white space.\<close>

definition ws_chars :: "char list" where
  "ws_chars = [CHR 0x09, CHR 0x0A, CHR 0x0B, CHR 0x0C, CHR 0x0D, CHR 0x1C, CHR 0x1D,
               CHR 0x1E, CHR 0x1F, CHR 0x20, CHR 0x85, CHR 0xA0]"

primrec blank_free :: "bool \<Rightarrow> regex \<Rightarrow> bool" where
  "blank_free ic (Str w) = list_ex (\<lambda>c. list_all (\<lambda>x. \<not> cmatch ic (Chr c) x) ws_chars) w"
| "blank_free ic (Set its) = list_all (\<lambda>x. \<not> set_match ic its x) ws_chars"
| "blank_free ic (NSet its) = list_all (\<lambda>x. set_match ic its x) ws_chars"
| "blank_free ic (Seq a b) = (blank_free ic a \<or> blank_free ic b)"
| "blank_free ic (Alt a b) = (blank_free ic a \<and> blank_free ic b)"
| "blank_free ic (Opt a) = False"
| "blank_free ic (Star a) = False"
| "blank_free ic (Plus a) = blank_free ic a"
| "blank_free ic (Rep lo hi a) = (0 < lo \<and> blank_free ic a)"

text \<open>Requests and handlers used as concrete inputs.\<close>

definition request_of :: "string \<Rightarrow> AssistantRequest" where
  "request_of t = \<lparr>req_text = t, user_id = ''user'', req_context = []\<rparr>"

definition ok_handler :: handler where
  "ok_handler i es ctx =
     Inr \<lparr>h_success = True, h_message = ''done'', h_data = None, h_error = None,
          h_requires_followup = False, h_followup_question = None\<rparr>"

definition failing_handler :: handler where
  "failing_handler i es ctx = Inl (Raised ''service unavailable'')"


section \<open>Classification as a fold over the candidates\<close>

lemma fold_exn_pure:
  assumes "\<And>x s. x \<in> set xs \<Longrightarrow> f x s = Inr (g x s)"
  shows "fold_exn f xs s = Inr (fold g xs s)"
  using assms by (induction xs arbitrary: s) simp_all

lemma fold_concat: "fold f (concat xss) = fold (fold f) xss"
  by (induction xss) simp_all

lemma fold_map_filter:
  "fold g (List.map_filter h xs) b = fold (\<lambda>x b. case h x of None \<Rightarrow> b | Some c \<Rightarrow> g c b) xs b"
  by (induction xs arbitrary: b) (simp_all add: List.map_filter_simps split: option.splits)

lemma calculate_confidence_nonempty:
  assumes "t \<noteq> []"
  shows "calculate_confidence (st, g) t =
     Inr (min (8/10 + (if g = t then 15/100 else 0)
               + (1/10) * (of_nat (length g) / of_nat (length t))) 1)"
  using assms by (simp add: calculate_confidence_def Let_def mult.commute)

lemma calculate_confidence_Inr:
  assumes "t \<noteq> []"
  shows "\<exists>c. calculate_confidence m t = Inr c \<and> 8/10 \<le> c \<and> c \<le> 1"
proof -
  have "(0::rat) \<le> of_nat (length (snd m)) / of_nat (length t) * (1/10)" by simp
  then show ?thesis using assms
    by (auto simp: calculate_confidence_def Let_def min_def)
qed

lemma try_pattern_pure:
  assumes "t \<noteq> []"
  shows "try_pattern t ty acts p b =
           Inr (case candidate t (ty, acts, p) of None \<Rightarrow> b | Some c \<Rightarrow> keep_best c b)"
proof (cases "re_search False p t")
  case None
  then show ?thesis by (simp add: try_pattern_def candidate_def)
next
  case (Some m)
  obtain c where "calculate_confidence m t = Inr c"
    using calculate_confidence_Inr [OF assms] by blast
  with Some show ?thesis by (simp add: try_pattern_def candidate_def keep_best_def)
qed

lemma classify_fold:
  assumes "t \<noteq> []"
  shows "classify t = Inr (fold keep_best (candidates t) (UNKNOWN, 0, None))"
proof -
  let ?u = "\<lambda>x b. case candidate t x of None \<Rightarrow> b | Some c \<Rightarrow> keep_best c b"
  let ?g1 = "\<lambda>ty pa. fold ?u (map (\<lambda>p. (ty, snd pa, p)) (fst pa))"
  let ?g2 = "\<lambda>tg. fold (?g1 (fst tg)) (snd tg)"
  have inner: "fold_exn (try_pattern t ty acts) pats b = Inr (?g1 ty (pats, acts) b)"
    for ty acts pats b
    by (simp add: fold_exn_pure [where g = "\<lambda>p. ?u (ty, acts, p)"] try_pattern_pure [OF assms]
          fold_map comp_def)
  have mid: "fold_exn (\<lambda>pa. fold_exn (try_pattern t ty (snd pa)) (fst pa)) groups b
             = Inr (?g2 (ty, groups) b)" for ty groups b
    by (simp add: fold_exn_pure [where g = "?g1 ty"] inner)
  have top: "classify t = Inr (fold ?g2 patterns (UNKNOWN, 0, None))"
    unfolding classify_def
    by (rule fold_exn_pure) (simp add: mid case_prod_unfold)
  have "fold ?u traversal b = fold ?g2 patterns b" for b
    unfolding traversal_def
    by (simp add: fold_concat fold_map comp_def case_prod_unfold)
  with top show ?thesis by (simp add: candidates_def fold_map_filter)
qed

text \<open>No trigger pattern matches the empty text, so the division is never by zero.\<close>

lemma classify_Nil: "classify [] = Inr (UNKNOWN, 0, None)"
  by code_simp

lemma candidates_Nil: "candidates [] = []"
  by code_simp

lemma classify_fold_all: "classify t = Inr (fold keep_best (candidates t) (UNKNOWN, 0, None))"
  by (cases "t = []") (simp_all add: classify_Nil candidates_Nil classify_fold)

text \<open>
  Folding \<open>keep_best\<close> over a non-empty list whose confidences all exceed the initial
  one yields the first element of maximal confidence.
\<close>

lemma fold_keep_best_first_max:
  assumes "cs \<noteq> []" and "\<forall>c\<in>set cs. fst (snd b0) < fst (snd c)"
  shows "\<exists>i<length cs. fold keep_best cs b0 = cs ! i
           \<and> (\<forall>j<length cs. fst (snd (cs ! j)) \<le> fst (snd (cs ! i)))
           \<and> (\<forall>j<i. fst (snd (cs ! j)) < fst (snd (cs ! i)))"
  using assms
proof (induction cs rule: rev_induct)
  case Nil
  then show ?case by simp
next
  case (snoc x xs)
  show ?case
  proof (cases "xs = []")
    case True
    with snoc.prems show ?thesis by (simp add: keep_best_def)
  next
    case False
    with snoc obtain i where i: "i < length xs" "fold keep_best xs b0 = xs ! i"
      "\<forall>j<length xs. fst (snd (xs ! j)) \<le> fst (snd (xs ! i))"
      "\<forall>j<i. fst (snd (xs ! j)) < fst (snd (xs ! i))"
      by auto
    show ?thesis
    proof (cases "fst (snd x) > fst (snd (xs ! i))")
      case True
      have "fold keep_best (xs @ [x]) b0 = (xs @ [x]) ! length xs"
        using True i(2) by (simp add: keep_best_def)
      moreover have "\<forall>j<length (xs @ [x]). fst (snd ((xs @ [x]) ! j)) \<le> fst (snd ((xs @ [x]) ! length xs))"
        using True i(3) by (auto simp: nth_append less_Suc_eq intro: less_imp_le order_trans)
      moreover have "\<forall>j<length xs. fst (snd ((xs @ [x]) ! j)) < fst (snd ((xs @ [x]) ! length xs))"
        using True i(3) by (auto simp: nth_append intro: le_less_trans)
      ultimately show ?thesis by (intro exI [of _ "length xs"]) simp
    next
      case False
      have "fold keep_best (xs @ [x]) b0 = (xs @ [x]) ! i"
        using False i(1,2) by (simp add: keep_best_def nth_append)
      moreover have "\<forall>j<length (xs @ [x]). fst (snd ((xs @ [x]) ! j)) \<le> fst (snd ((xs @ [x]) ! i))"
        using False i(1,3) by (auto simp: nth_append less_Suc_eq)
      moreover have "\<forall>j<i. fst (snd ((xs @ [x]) ! j)) < fst (snd ((xs @ [x]) ! i))"
        using i(1,4) by (auto simp: nth_append)
      ultimately show ?thesis using i(1) by (intro exI [of _ i]) simp
    qed
  qed
qed

lemma traversal_types:
  "x \<in> set traversal \<Longrightarrow> fst x \<in> {CALENDAR, EMAIL, REMINDER, WEATHER, NEWS, SEARCH}"
  by (auto simp: traversal_def patterns_def)

lemma candidates_bounds:
  assumes "c \<in> set (candidates t)" and "t \<noteq> []"
  shows "fst c \<in> {CALENDAR, EMAIL, REMINDER, WEATHER, NEWS, SEARCH}
         \<and> 8/10 \<le> fst (snd c) \<and> fst (snd c) \<le> 1"
proof -
  from assms(1) obtain x where x: "x \<in> set traversal" "candidate t x = Some c"
    by (auto simp: candidates_def List.map_filter_def)
  obtain ty acts p where xe: "x = (ty, acts, p)" by (cases x)
  from x(2) xe obtain m k where "calculate_confidence m t = Inr k" "c = (ty, k, extract_action t acts)"
    by (auto simp: candidate_def split: option.splits sum.splits)
  moreover from calculate_confidence_Inr [OF assms(2), of m] this(1)
  have "8/10 \<le> k \<and> k \<le> 1" by auto
  ultimately show ?thesis using traversal_types [OF x(1)] xe by simp
qed

lemma classify_cases:
  "\<exists>ty c a. classify t = Inr (ty, c, a)
     \<and> ((ty = UNKNOWN \<and> c = 0 \<and> a = None \<and> candidates t = [])
        \<or> (ty \<in> {CALENDAR, EMAIL, REMINDER, WEATHER, NEWS, SEARCH} \<and> 8/10 \<le> c \<and> c \<le> 1))"
proof (cases "candidates t = []")
  case True
  then show ?thesis by (simp add: classify_fold_all)
next
  case False
  then have t: "t \<noteq> []" using candidates_Nil by auto
  have "\<forall>c\<in>set (candidates t). fst (snd (UNKNOWN, 0::rat, None :: string option)) < fst (snd c)"
    using candidates_bounds [OF _ t] by fastforce
  from fold_keep_best_first_max [OF False this]
  obtain i where "i < length (candidates t)"
    "fold keep_best (candidates t) (UNKNOWN, 0, None) = candidates t ! i" by blast
  then have "fold keep_best (candidates t) (UNKNOWN, 0, None) \<in> set (candidates t)" by simp
  from candidates_bounds [OF this t] show ?thesis
    by (cases "fold keep_best (candidates t) (UNKNOWN, 0, None)") (simp add: classify_fold_all)
qed

lemma recognize_intent_cases:
  "\<exists>i. recognize_intent t = Inr i
     \<and> ((itype i = UNKNOWN \<and> iconfidence i = 0)
        \<or> (itype i = GENERAL_CHAT \<and> iconfidence i = 7/10)
        \<or> (itype i \<in> {CALENDAR, EMAIL, REMINDER, WEATHER, NEWS, SEARCH}
             \<and> 8/10 \<le> iconfidence i \<and> iconfidence i \<le> 1))"
proof -
  from classify_cases [of "strip (lower t)"] obtain ty c a where
    "classify (strip (lower t)) = Inr (ty, c, a)"
    "(ty = UNKNOWN \<and> c = 0) \<or> (ty \<in> {CALENDAR, EMAIL, REMINDER, WEATHER, NEWS, SEARCH} \<and> 8/10 \<le> c \<and> c \<le> 1)"
    by blast
  then show ?thesis by (auto simp: recognize_intent_def Let_def)
qed

section \<open>Confidence range\<close>

text \<open>
  C3. For every input text, \<open>recognize_intent\<close> returns an intent (it raises nothing) and
  the confidence of that intent lies in the closed interval from 0 to 1.
\<close>

theorem confidence_in_unit_interval:
  "\<exists>i. recognize_intent t = Inr i \<and> 0 \<le> iconfidence i \<and> iconfidence i \<le> 1"
  using recognize_intent_cases [of t] by auto

section \<open>Confidence scoring\<close>

text \<open>
  C5. For every match of a trigger pattern against the normalised, non-empty text, the
  candidate confidence is the minimum of 1 and the sum of 0.8, of 0.15 if the matched
  substring is the whole normalised text, and of 0.1 times the ratio of the length of the
  matched substring to the length of the text; this is the confidence the loop compares
  with the running best.
\<close>

theorem candidate_confidence_formula:
  assumes "re_search False p t = Some (st, g)" and "t \<noteq> []"
  shows "calculate_confidence (st, g) t =
           Inr (min (8/10 + (if g = t then 15/100 else 0)
                     + (1/10) * (of_nat (length g) / of_nat (length t))) 1)
       \<and> try_pattern t ty acts p b =
           (let c = min (8/10 + (if g = t then 15/100 else 0)
                         + (1/10) * (of_nat (length g) / of_nat (length t))) 1
            in Inr (if c > fst (snd b) then (ty, c, extract_action t acts) else b))"
  using assms by (simp add: calculate_confidence_nonempty try_pattern_def Let_def)

lemma remind_search:
  "re_search False (reminder_patterns ! 0) ''remind me to call mom'' = Some (0, ''remind me to'')"
  by code_simp

theorem candidate_confidence_formula_witness:
  "re_search False (reminder_patterns ! 0) ''remind me to call mom'' = Some (0, ''remind me to'')
   \<and> ''remind me to call mom'' \<noteq> []
   \<and> calculate_confidence (0, ''remind me to'') ''remind me to call mom'' = Inr (6/7)
   \<and> try_pattern ''remind me to call mom'' REMINDER [''create''] (reminder_patterns ! 0)
        (UNKNOWN, 0, None) = Inr (REMINDER, 6/7, Some ''create'')"
proof -
  have s: "re_search False (reminder_patterns ! 0) ''remind me to call mom'' = Some (0, ''remind me to'')"
    by (rule remind_search)
  have n: "''remind me to call mom'' \<noteq> []" by simp
  have a: "extract_action ''remind me to call mom'' [''create''] = Some ''create''"
    by code_simp
  show ?thesis
    using candidate_confidence_formula [OF s n, of REMINDER "[''create'']" "(UNKNOWN, 0, None)"] s a
    by (simp add: Let_def)
qed

section \<open>Confidence levels and the threshold gate\<close>

text \<open>
  C10. For every input text the recogniser returns an intent whose confidence is exactly 0
  (type \<open>UNKNOWN\<close>), exactly 0.7 (type \<open>GENERAL_CHAT\<close>) or at least 0.8 (a type of the
  pattern catalog). Hence an intent of a type other than \<open>UNKNOWN\<close> and \<open>GENERAL_CHAT\<close>
  reaches the threshold 0.6, and the coordinator returns a response with
  \<open>is_assistant_task = False\<close>, which only its general-conversation branch does, exactly
  for \<open>UNKNOWN\<close> and \<open>GENERAL_CHAT\<close>.
\<close>

theorem confidence_levels:
  "case recognize_intent t of
     Inl e \<Rightarrow> False
   | Inr i \<Rightarrow>
       ((itype i = UNKNOWN \<and> iconfidence i = 0)
        \<or> (itype i = GENERAL_CHAT \<and> iconfidence i = 7/10)
        \<or> (itype i \<notin> {UNKNOWN, GENERAL_CHAT} \<and> 8/10 \<le> iconfidence i))
       \<and> (itype i \<notin> {UNKNOWN, GENERAL_CHAT} \<longrightarrow> confidence_threshold \<le> iconfidence i)
       \<and> ((\<exists>r. process_request handlers \<lparr>req_text = t, user_id = u, req_context = ctx\<rparr> = Inr r
                \<and> \<not> is_assistant_task r)
            = (itype i \<in> {UNKNOWN, GENERAL_CHAT}))"
proof -
  from recognize_intent_cases [of t] obtain i where i: "recognize_intent t = Inr i"
    "(itype i = UNKNOWN \<and> iconfidence i = 0)
        \<or> (itype i = GENERAL_CHAT \<and> iconfidence i = 7/10)
        \<or> (itype i \<in> {CALENDAR, EMAIL, REMINDER, WEATHER, NEWS, SEARCH}
             \<and> 8/10 \<le> iconfidence i \<and> iconfidence i \<le> 1)" by blast
  have thr: "itype i \<notin> {UNKNOWN, GENERAL_CHAT} \<longrightarrow> confidence_threshold \<le> iconfidence i"
    using i(2) by (auto simp: confidence_threshold_def)
  have "(\<exists>r. process_request handlers \<lparr>req_text = t, user_id = u, req_context = ctx\<rparr> = Inr r
                \<and> \<not> is_assistant_task r)
            = (itype i \<in> {UNKNOWN, GENERAL_CHAT})"
    using i(1) thr
    by (auto simp: process_request_def process_request_body_def error_response_def Let_def
          split: option.splits sum.splits if_splits)
  with i thr show ?thesis by auto
qed

lemma hello_intent:
  "recognize_intent ''hello, thanks!'' =
     Inr \<lparr>itype = GENERAL_CHAT, iconfidence = 7/10,
          entities = [\<lparr>etype = ''location'', evalue = ''hello, th'', econfidence = 8/10,
                       start_pos = 0, end_pos = 9\<rparr>],
          raw_text = ''hello, thanks!'', action = None\<rparr>"
  by code_simp

theorem confidence_levels_witness:
  "recognize_intent ''hello, thanks!'' =
     Inr \<lparr>itype = GENERAL_CHAT, iconfidence = 7/10,
          entities = [\<lparr>etype = ''location'', evalue = ''hello, th'', econfidence = 8/10,
                       start_pos = 0, end_pos = 9\<rparr>],
          raw_text = ''hello, thanks!'', action = None\<rparr>
   \<and> (\<exists>r. process_request (reference_handlers ok_handler ok_handler ok_handler)
              \<lparr>req_text = ''hello, thanks!'', user_id = ''user'', req_context = []\<rparr> = Inr r
            \<and> \<not> is_assistant_task r)"
  using confidence_levels [where t = "''hello, thanks!''"
      and handlers = "reference_handlers ok_handler ok_handler ok_handler"
      and u = "''user''" and ctx = "[]"]
  by (simp add: hello_intent)


section \<open>First match wins ties\<close>

lemma traversal_order:
  "map fst traversal =
     replicate 5 CALENDAR @ replicate 5 EMAIL @ replicate 5 REMINDER @ replicate 5 WEATHER
     @ replicate 5 NEWS @ replicate 5 SEARCH"
  "map (snd \<circ> snd) traversal =
     calendar_patterns @ email_patterns @ reminder_patterns @ weather_patterns
     @ news_patterns @ search_patterns"
   apply (simp add: traversal_def patterns_def calendar_patterns_def email_patterns_def
      reminder_patterns_def weather_patterns_def news_patterns_def search_patterns_def
      numeral_eq_Suc)
  apply (simp add: traversal_def patterns_def comp_def)
  done

lemma try_pattern_strict:
  assumes "try_pattern t ty acts p b = Inr b'" and "b' \<noteq> b"
  shows "\<exists>m c. re_search False p t = Some m \<and> calculate_confidence m t = Inr c
          \<and> fst (snd b) < c \<and> b' = (ty, c, extract_action t acts)"
  using assms by (auto simp: try_pattern_def split: option.splits sum.splits if_splits)

text \<open>
  C4. The loops examine the trigger patterns in a fixed order: the intent types in the order
  of the catalog (calendar, email, reminder, weather, news, search) and, within each, the
  patterns in the order of their list. One step replaces the running best only by a match
  whose confidence is strictly greater. Hence the classification is the first candidate,
  in traversal order, among those of greatest confidence: no earlier candidate reaches its
  confidence and no later one exceeds it.
\<close>

theorem earliest_best_candidate_wins:
  "map fst traversal =
     replicate 5 CALENDAR @ replicate 5 EMAIL @ replicate 5 REMINDER @ replicate 5 WEATHER
     @ replicate 5 NEWS @ replicate 5 SEARCH
   \<and> map (snd \<circ> snd) traversal =
     calendar_patterns @ email_patterns @ reminder_patterns @ weather_patterns
     @ news_patterns @ search_patterns
   \<and> (\<forall>ty acts p b b'. try_pattern t ty acts p b = Inr b' \<and> b' \<noteq> b \<longrightarrow>
         (\<exists>m c. re_search False p t = Some m \<and> calculate_confidence m t = Inr c
            \<and> fst (snd b) < c \<and> b' = (ty, c, extract_action t acts)))
   \<and> (if candidates t = [] then classify t = Inr (UNKNOWN, 0, None)
       else \<exists>i<length (candidates t).
              classify t = Inr (candidates t ! i)
              \<and> (\<forall>j<length (candidates t).
                    fst (snd (candidates t ! j)) \<le> fst (snd (candidates t ! i)))
              \<and> (\<forall>j<i. fst (snd (candidates t ! j)) < fst (snd (candidates t ! i))))"
proof -
  have last: "if candidates t = [] then classify t = Inr (UNKNOWN, 0, None)
       else \<exists>i<length (candidates t).
              classify t = Inr (candidates t ! i)
              \<and> (\<forall>j<length (candidates t).
                    fst (snd (candidates t ! j)) \<le> fst (snd (candidates t ! i)))
              \<and> (\<forall>j<i. fst (snd (candidates t ! j)) < fst (snd (candidates t ! i)))"
  proof (cases "candidates t = []")
    case True
    then show ?thesis by (simp add: classify_fold_all)
  next
    case False
    then have t: "t \<noteq> []" using candidates_Nil by auto
    have "\<forall>c\<in>set (candidates t). fst (snd (UNKNOWN, 0::rat, None :: string option)) < fst (snd c)"
      using candidates_bounds [OF _ t] by fastforce
    from fold_keep_best_first_max [OF False this] False show ?thesis
      by (simp add: classify_fold_all)
  qed
  show ?thesis
    using traversal_order try_pattern_strict [of t] last by blast
qed

lemma tie_candidates:
  "candidates ''add event add alert'' =
     [(CALENDAR, 161/190, Some ''create''), (REMINDER, 161/190, Some ''create'')]"
  by code_simp

theorem earliest_best_candidate_wins_witness:
  "candidates ''add event add alert'' =
     [(CALENDAR, 161/190, Some ''create''), (REMINDER, 161/190, Some ''create'')]
   \<and> classify ''add event add alert'' = Inr (CALENDAR, 161/190, Some ''create'')"
proof -
  let ?cs = "candidates ''add event add alert''"
  have ne: "?cs \<noteq> []" by (simp add: tie_candidates)
  have "\<exists>i<length ?cs. classify ''add event add alert'' = Inr (?cs ! i)
          \<and> (\<forall>j<length ?cs. fst (snd (?cs ! j)) \<le> fst (snd (?cs ! i)))
          \<and> (\<forall>j<i. fst (snd (?cs ! j)) < fst (snd (?cs ! i)))"
    using earliest_best_candidate_wins [of "''add event add alert''", THEN conjunct2,
        THEN conjunct2, THEN conjunct2]
    by (simp only: ne if_False)
  then obtain i where i: "i < length ?cs" "classify ''add event add alert'' = Inr (?cs ! i)"
    "\<forall>j<i. fst (snd (?cs ! j)) < fst (snd (?cs ! i))"
    by blast
  have "i = 0"
  proof (rule ccontr)
    assume "i \<noteq> 0"
    with i(1) have "i = 1" by (simp add: tie_candidates)
    with i(3) have "fst (snd (?cs ! 0)) < fst (snd (?cs ! 1))" by simp
    then show False by (simp add: tie_candidates)
  qed
  with i(2) show ?thesis by (simp add: tie_candidates)
qed

section \<open>Failure containment\<close>







section \<open>Intents without a handler\<close>

lemma calendar_intent:
  "recognize_intent ''check my calendar'' =
     Inr \<lparr>itype = CALENDAR, iconfidence = 1, entities = [],
          raw_text = ''check my calendar'', action = Some ''read''\<rparr>"
  by code_simp

text \<open>
  C7, as stated, fails on the text of the error: for ''check my calendar'' the recogniser
  returns a calendar intent of confidence 1, the reference registry has no calendar handler,
  and the error is ''No handler available for calendar'', with a capital N.
\<close>

theorem unhandled_error_text_counterexample:
  "recognize_intent (req_text (request_of ''check my calendar'')) =
     Inr \<lparr>itype = CALENDAR, iconfidence = 1, entities = [],
          raw_text = ''check my calendar'', action = Some ''read''\<rparr>
   \<and> confidence_threshold \<le> 1
   \<and> reference_handlers ok_handler ok_handler ok_handler CALENDAR = None
   \<and> map_sum id error (process_request (reference_handlers ok_handler ok_handler ok_handler)
                         (request_of ''check my calendar''))
       = Inr (Some ''No handler available for calendar'')
   \<and> map_sum id error (process_request (reference_handlers ok_handler ok_handler ok_handler)
                         (request_of ''check my calendar''))
       \<noteq> Inr (Some ''no handler available for calendar'')"
  by (simp add: request_of_def calendar_intent process_request_def process_request_body_def
        reference_handlers_def confidence_threshold_def)

text \<open>
  C7, amended. For every request whose recognised intent has a type other than \<open>UNKNOWN\<close>
  and \<open>GENERAL_CHAT\<close>, a confidence of at least 0.6 and no registered handler,
  \<open>process_request\<close> returns the terminal response with \<open>success\<close> false,
  \<open>is_assistant_task\<close> true and \<open>error\<close> equal to ''No handler available for ''
  followed by the value of the type; the response asks no follow-up and carries no handler
  result. In the reference registry the types without a handler are calendar, email and news.
\<close>

theorem unhandled_intent_response:
  assumes "recognize_intent (req_text request) = Inr i"
    and "itype i \<notin> {UNKNOWN, GENERAL_CHAT}"
    and "confidence_threshold \<le> iconfidence i"
    and "handlers (itype i) = None"
  shows "process_request handlers request =
           Inr \<lparr>success = False,
                message = ''I understand you want help with '' @ type_value (itype i) @
                          '', but that feature isn't available yet.'',
                intent_type = type_value (itype i),
                confidence = iconfidence i,
                data = None,
                error = Some (''No handler available for '' @ type_value (itype i)),
                requires_followup = False,
                followup_question = None,
                is_assistant_task = True\<rparr>
       \<and> (reference_handlers wh rh sh (itype i) = None
            \<longleftrightarrow> itype i \<in> {CALENDAR, EMAIL, NEWS})"
proof -
  have "process_request handlers request =
           Inr \<lparr>success = False,
                message = ''I understand you want help with '' @ type_value (itype i) @
                          '', but that feature isn't available yet.'',
                intent_type = type_value (itype i),
                confidence = iconfidence i,
                data = None,
                error = Some (''No handler available for '' @ type_value (itype i)),
                requires_followup = False,
                followup_question = None,
                is_assistant_task = True\<rparr>"
    using assms by (simp add: process_request_def process_request_body_def)
  moreover have "reference_handlers wh rh sh (itype i) = None \<longleftrightarrow> itype i \<in> {CALENDAR, EMAIL, NEWS}"
    using assms(2) by (cases "itype i") (simp_all add: reference_handlers_def)
  ultimately show ?thesis by simp
qed

theorem unhandled_intent_response_witness:
  "process_request (reference_handlers failing_handler failing_handler failing_handler)
     (request_of ''check my calendar'') =
     Inr \<lparr>success = False,
          message = ''I understand you want help with calendar, but that feature isn't available yet.'',
          intent_type = ''calendar'',
          confidence = 1,
          data = None,
          error = Some ''No handler available for calendar'',
          requires_followup = False,
          followup_question = None,
          is_assistant_task = True\<rparr>"
proof -
  have r: "recognize_intent (req_text (request_of ''check my calendar'')) =
     Inr \<lparr>itype = CALENDAR, iconfidence = 1, entities = [],
          raw_text = ''check my calendar'', action = Some ''read''\<rparr>"
    by (simp add: request_of_def calendar_intent)
  show ?thesis
    using unhandled_intent_response [OF r, of "reference_handlers failing_handler failing_handler failing_handler"]
    by (simp add: reference_handlers_def confidence_threshold_def)
qed

section \<open>Follow-up questions\<close>

text \<open>
  C9. When more than one required entity kind is missing, the follow-up question is
  ''I need to know: '' followed by the per-kind phrases joined with a comma and a space:
  the template of the intent type for the kind, or the name of the kind when there is no
  template. The kinds are the required kinds without an extracted entity, in the order of
  the requirement list.
\<close>

theorem combined_followup_question:
  assumes "1 < length (check_missing_entities ents required)"
  shows "check_missing_entities ents required = filter (\<lambda>k. k \<notin> etype ` set ents) required
       \<and> generate_followup_question ty act (check_missing_entities ents required) =
           ''I need to know: '' @
           join '', '' (map (\<lambda>k. case map_of (intent_questions ty) k of
                                    Some q \<Rightarrow> q | None \<Rightarrow> k)
                            (filter (\<lambda>k. k \<notin> etype ` set ents) required))
       \<and> (\<forall>a b. join '', '' [a, b] = a @ '', '' @ b)
       \<and> (\<forall>a b cs. join '', '' (a # b # cs) = a @ '', '' @ join '', '' (b # cs))"
proof -
  have m: "check_missing_entities ents required = filter (\<lambda>k. k \<notin> etype ` set ents) required"
    by (simp add: check_missing_entities_def)
  from assms obtain a b cs where "check_missing_entities ents required = a # b # cs"
    by (cases "check_missing_entities ents required" rule: list.exhaust)
       (auto simp: neq_Nil_conv)
  then have "generate_followup_question ty act (check_missing_entities ents required) =
           ''I need to know: '' @
           join '', '' (map (\<lambda>k. case map_of (intent_questions ty) k of
                                    Some q \<Rightarrow> q | None \<Rightarrow> k)
                            (check_missing_entities ents required))"
    by (simp add: generate_followup_question_def)
  with m show ?thesis by simp
qed

theorem combined_followup_question_witness:
  "generate_followup_question EMAIL (Some ''send'')
     (check_missing_entities [] (get_required_entities EMAIL (Some ''send''))) =
     ''I need to know: Who would you like to send this email to?, What is the subject or content of the email?''
   \<and> generate_followup_question NEWS None
     (check_missing_entities
        [\<lparr>etype = ''person'', evalue = ''to Bob'', econfidence = 8/10, start_pos = 0, end_pos = 6\<rparr>]
        [''topic'', ''person'', ''location'']) = ''I need to know: topic, location''"
proof -
  have r: "get_required_entities EMAIL (Some ''send'') = [''person'', ''topic'']"
    by code_simp
  have q: "intent_questions EMAIL = [(''person'', ''Who would you like to send this email to?''),
        (''topic'', ''What is the subject or content of the email?'')]"
    "intent_questions NEWS = []"
    by code_simp+
  have l1: "1 < length (check_missing_entities [] (get_required_entities EMAIL (Some ''send'')))"
    by (simp add: r check_missing_entities_def)
  have l2: "1 < length (check_missing_entities
        [\<lparr>etype = ''person'', evalue = ''to Bob'', econfidence = 8/10, start_pos = 0, end_pos = 6\<rparr>]
        [''topic'', ''person'', ''location''])"
    by (simp add: check_missing_entities_def)
  show ?thesis
    using combined_followup_question [OF l1, of EMAIL "Some ''send''"]
      combined_followup_question [OF l2, of NEWS None]
    by (simp add: r q check_missing_entities_def)
qed

section \<open>The weather example of the capabilities descriptor\<close>

lemma weather_like_intent:
  "recognize_intent ''What's the weather like?'' =
     Inr \<lparr>itype = UNKNOWN, iconfidence = 0, entities = [],
          raw_text = ''What's the weather like?'', action = None\<rparr>"
  by code_simp

text \<open>
  C1. The code at the claim's input ''What's the weather like?'': no trigger pattern matches
  the normalised text (the weather patterns ask for white space after ''what'', and the
  text has an apostrophe there) and no chat indicator occurs in it, so the intent is
  \<open>UNKNOWN\<close> with confidence 0 and no action, and the coordinator answers with the
  general-conversation response instead of running the weather handler.
\<close>

theorem weather_like_not_recognised:
  "recognize_intent ''What's the weather like?'' =
     Inr \<lparr>itype = UNKNOWN, iconfidence = 0, entities = [],
          raw_text = ''What's the weather like?'', action = None\<rparr>
   \<and> candidates (strip (lower ''What's the weather like?'')) = []
   \<and> process_request (reference_handlers wh rh sh)
         \<lparr>req_text = ''What's the weather like?'', user_id = u, req_context = ctx\<rparr> =
       Inr \<lparr>success = True,
            message = ''This doesn't appear to be a personal assistant task. '' @
                      ''I'll handle it as a general conversation.'',
            intent_type = ''unknown'',
            confidence = 0,
            data = None, error = None, requires_followup = False,
            followup_question = None, is_assistant_task = False\<rparr>"
proof -
  have "candidates (strip (lower ''What's the weather like?'')) = []"
    by code_simp
  then show ?thesis
    by (simp add: weather_like_intent process_request_def process_request_body_def)
qed

section \<open>A reminder without date and topic\<close>

lemma remind_intent:
  "recognize_intent ''Remind me to call mom'' =
     Inr \<lparr>itype = REMINDER, iconfidence = 6/7,
          entities = [\<lparr>etype = ''person'', evalue = ''to call mom'', econfidence = 8/10,
                       start_pos = 10, end_pos = 21\<rparr>],
          raw_text = ''Remind me to call mom'', action = Some ''create''\<rparr>"
  by code_simp

lemma reminder_create_requirements:
  "get_required_entities REMINDER (Some ''create'') = [''datetime'', ''topic'']"
  by code_simp

lemma reminder_questions:
  "intent_questions REMINDER =
     [(''topic'', ''What would you like me to remind you about?''),
      (''datetime'',
       ''When would you like to be reminded? (e.g., 'tomorrow at 3pm', 'in 2 hours')'')]"
  by code_simp

text \<open>
  C6. For ''Remind me to call mom'' the recogniser returns a reminder intent with action
  ''create''; the only extracted entity is a person, so the missing required kinds are
  datetime and topic, in that order. With any handlers in the reference registry, also
  raising ones, \<open>process_request\<close> returns the follow-up response whose question combines
  the questions for both kinds: the reminder handler is not run.
\<close>

theorem remind_me_needs_followup:
  "recognize_intent ''Remind me to call mom'' =
     Inr \<lparr>itype = REMINDER, iconfidence = 6/7,
          entities = [\<lparr>etype = ''person'', evalue = ''to call mom'', econfidence = 8/10,
                       start_pos = 10, end_pos = 21\<rparr>],
          raw_text = ''Remind me to call mom'', action = Some ''create''\<rparr>
   \<and> check_missing_entities
         [\<lparr>etype = ''person'', evalue = ''to call mom'', econfidence = 8/10,
           start_pos = 10, end_pos = 21\<rparr>]
         (get_required_entities REMINDER (Some ''create'')) = [''datetime'', ''topic'']
   \<and> process_request (reference_handlers wh rh sh)
         \<lparr>req_text = ''Remind me to call mom'', user_id = u, req_context = ctx\<rparr> =
       Inr \<lparr>success = True,
            message = ''I need a bit more information to help you with that.'',
            intent_type = ''reminder'',
            confidence = 6/7,
            data = None, error = None, requires_followup = True,
            followup_question = Some (''I need to know: '' @
              ''When would you like to be reminded? (e.g., 'tomorrow at 3pm', 'in 2 hours')'' @
              '', '' @ ''What would you like me to remind you about?''),
            is_assistant_task = True\<rparr>"
  by (simp add: remind_intent reminder_create_requirements reminder_questions
        check_missing_entities_def process_request_def process_request_body_def
        reference_handlers_def
        confidence_threshold_def generate_followup_question_def)

section \<open>Empty and blank texts\<close>

lemma isspace_iff: "isspace c \<longleftrightarrow> c \<in> set ws_chars"
proof
  assume "isspace c"
  then have "(of_char c :: nat) \<in> {9, 10, 11, 12, 13, 28, 29, 30, 31, 32, 133, 160}"
    unfolding isspace_def Let_def by simp arith
  then have "(of_char c :: nat) \<in> of_char ` set ws_chars"
    by (simp add: ws_chars_def)
  then obtain d where "d \<in> set ws_chars" "(of_char c :: nat) = of_char d" by blast
  then show "c \<in> set ws_chars" by simp
next
  assume "c \<in> set ws_chars"
  then show "isspace c" by (auto simp: ws_chars_def isspace_def)
qed

lemma lower_chr_space: "isspace c \<Longrightarrow> lower_chr c = c"
  by (auto simp: isspace_def lower_chr_def Let_def)

lemma strip_lower_blank:
  assumes "\<forall>c\<in>set t. isspace c"
  shows "strip (lower t) = []"
proof -
  have "lower t = t"
    using assms by (simp add: lower_def lower_chr_space map_idI)
  moreover have "dropWhile isspace t = []"
    using assms by simp
  ultimately have "strip (lower t) = rev (dropWhile isspace (rev []))"
    by (simp only: strip_def)
  then show ?thesis by simp
qed

lemma str_match_subset: "str_match ic w s = Some t \<Longrightarrow> set t \<subseteq> set s"
  by (induction ic w s rule: str_match.induct) (auto split: if_splits)

lemma star_iter_subset:
  assumes "\<And>u v. v \<in> set (f u) \<Longrightarrow> set v \<subseteq> set u"
  shows "t \<in> set (star_iter n f s) \<Longrightarrow> set t \<subseteq> set s"
proof (induction n arbitrary: s t)
  case 0
  then show ?case by simp
next
  case (Suc n)
  from Suc.prems consider "t = s"
    | u where "u \<in> set (f s)" "t \<in> set (star_iter n f u)"
    by (auto split: if_splits)
  then show ?case
  proof cases
    case 1
    then show ?thesis by simp
  next
    case 2
    with Suc.IH [of t u] assms [of u s] show ?thesis by blast
  qed
qed

lemma rep_iter_subset:
  assumes "\<And>u v. v \<in> set (f u) \<Longrightarrow> set v \<subseteq> set u"
  shows "t \<in> set (rep_iter hi lo f s) \<Longrightarrow> set t \<subseteq> set s"
proof (induction hi arbitrary: lo s t)
  case 0
  then show ?case by (simp split: if_splits)
next
  case (Suc hi)
  from Suc.prems consider "t = s"
    | u where "u \<in> set (f s)" "t \<in> set (rep_iter hi (lo - 1) f u)"
    by (auto split: if_splits)
  then show ?case
  proof cases
    case 1
    then show ?thesis by simp
  next
    case 2
    with Suc.IH [of t "lo - 1" u] assms [of u s] show ?thesis by blast
  qed
qed

lemma matches_subset: "t \<in> set (matches ic r s) \<Longrightarrow> set t \<subseteq> set s"
proof (induction r arbitrary: s t)
  case (Str w)
  then show ?case by (auto split: option.splits dest: str_match_subset str_match_subset [OF sym])
next
  case (Set its)
  then show ?case by (auto split: list.splits if_splits)
next
  case (NSet its)
  then show ?case by (auto split: list.splits if_splits)
next
  case (Seq a b)
  from Seq.prems obtain u where "u \<in> set (matches ic a s)" "t \<in> set (matches ic b u)"
    by auto
  with Seq.IH(1) [of u s] Seq.IH(2) [of t u] show ?case by blast
next
  case (Alt a b)
  then show ?case by fastforce
next
  case (Opt a)
  then show ?case by fastforce
next
  case (Star a)
  from Star.prems have "t \<in> set (star_iter (length s) (matches ic a) s)" by simp
  then show ?case using Star.IH by (rule star_iter_subset [rotated])
next
  case (Plus a)
  from Plus.prems obtain u where u: "u \<in> set (matches ic a s)"
    "t \<in> set (star_iter (length u) (matches ic a) u)" by auto
  from u(2) have "set t \<subseteq> set u" using Plus.IH by (rule star_iter_subset [rotated])
  with Plus.IH [OF u(1)] show ?case by blast
next
  case (Rep lo hi a)
  from Rep.prems have "t \<in> set (rep_iter hi lo (matches ic a) s)" by simp
  then show ?case using Rep.IH by (rule rep_iter_subset [rotated])
qed

lemma str_match_blank:
  assumes "\<forall>c\<in>set s. isspace c"
    and "list_ex (\<lambda>c. list_all (\<lambda>x. \<not> cmatch ic (Chr c) x) ws_chars) w"
  shows "str_match ic w s = None"
  using assms
proof (induction ic w s rule: str_match.induct)
  case (1 ic s)
  then show ?case by simp
next
  case (2 ic w ws)
  then show ?case by simp
next
  case (3 ic w ws c cs)
  have c: "c \<in> set ws_chars" using "3.prems"(1) by (simp add: isspace_iff)
  show ?case
  proof (cases "cmatch ic (Chr w) c")
    case True
    with c "3.prems"(2) have "list_ex (\<lambda>c. list_all (\<lambda>x. \<not> cmatch ic (Chr c) x) ws_chars) ws"
      by (auto simp: list_all_iff)
    with "3.IH" True "3.prems"(1) show ?thesis by simp
  next
    case False
    then show ?thesis by simp
  qed
qed

lemma blank_free_no_match:
  assumes "blank_free ic r" and "\<forall>c\<in>set s. isspace c"
  shows "matches ic r s = []"
  using assms
proof (induction r arbitrary: s)
  case (Str w)
  then show ?case by (simp add: str_match_blank)
next
  case (Set its)
  then show ?case by (auto simp: list_all_iff isspace_iff split: list.splits)
next
  case (NSet its)
  then show ?case by (auto simp: list_all_iff isspace_iff split: list.splits)
next
  case (Seq a b)
  show ?case
  proof (cases "blank_free ic a")
    case True
    with Seq show ?thesis by simp
  next
    case False
    with Seq.prems have b: "blank_free ic b" by simp
    have "matches ic b u = []" if "u \<in> set (matches ic a s)" for u
      using Seq.IH(2) [OF b, of u] matches_subset [OF that] Seq.prems(2) by blast
    then show ?thesis by simp
  qed
next
  case (Alt a b)
  then show ?case by simp
next
  case (Opt a)
  then show ?case by simp
next
  case (Star a)
  then show ?case by simp
next
  case (Plus a)
  then show ?case by simp
next
  case (Rep lo hi a)
  then have "matches ic a s = []" "0 < lo" by simp_all
  then show ?case by (cases hi) simp_all
qed

lemma search_from_blank:
  assumes "blank_free ic r" and "\<forall>c\<in>set s. isspace c"
  shows "search_from ic r i s = None"
  using assms(2)
proof (induction s arbitrary: i)
  case Nil
  then show ?case using blank_free_no_match [OF assms(1), of "[]"] by simp
next
  case (Cons c cs)
  then show ?case using blank_free_no_match [OF assms(1), of "c # cs"] by simp
qed

lemma finditer_blank:
  assumes "blank_free ic r" and "\<forall>c\<in>set s. isspace c"
  shows "finditer ic r s = []"
  unfolding finditer_def
  by (subst finditer_from.simps) (simp add: search_from_blank [OF assms])

lemma entity_patterns_blank_free:
  "list_all (blank_free True) (concat (map snd entity_extractors))"
  by code_simp

lemma extract_entities_blank:
  assumes "\<forall>c\<in>set t. isspace c"
  shows "extract_entities t = []"
proof -
  have "finditer True p t = []" if "(k, ps) \<in> set entity_extractors" "p \<in> set ps" for k ps p
  proof -
    from that have "p \<in> set (concat (map snd entity_extractors))" by force
    with entity_patterns_blank_free have "blank_free True p"
      unfolding list_all_iff by blast
    then show ?thesis using assms by (rule finditer_blank)
  qed
  then show ?thesis by (auto simp: extract_entities_def)
qed

lemma not_chat_Nil: "\<not> is_general_chat []"
  by code_simp

text \<open>
  C8. For every text that is empty or consists of white space only, \<open>recognize_intent\<close>
  returns an intent of type \<open>UNKNOWN\<close> with confidence 0 and no entities.
\<close>

theorem blank_text_unknown:
  assumes "\<forall>c\<in>set t. isspace c"
  shows "recognize_intent t =
           Inr \<lparr>itype = UNKNOWN, iconfidence = 0, entities = [], raw_text = t, action = None\<rparr>"
  using assms
  by (simp add: recognize_intent_def strip_lower_blank classify_Nil not_chat_Nil
        extract_entities_blank)

theorem blank_text_unknown_witness:
  "isspace (CHR 0x20) \<and> isspace (CHR 0x09) \<and> isspace (CHR 0x0A) \<and> isspace (CHR 0xA0)
   \<and> recognize_intent [CHR 0x20, CHR 0x09, CHR 0x0A, CHR 0xA0] =
       Inr \<lparr>itype = UNKNOWN, iconfidence = 0, entities = [],
            raw_text = [CHR 0x20, CHR 0x09, CHR 0x0A, CHR 0xA0], action = None\<rparr>
   \<and> recognize_intent [] =
       Inr \<lparr>itype = UNKNOWN, iconfidence = 0, entities = [], raw_text = [], action = None\<rparr>"
proof -
  have b: "\<forall>c\<in>set [CHR 0x20, CHR 0x09, CHR 0x0A, CHR 0xA0]. isspace c"
    by (simp add: isspace_def)
  have e: "\<forall>c\<in>set []. isspace c" by simp
  show ?thesis
    using b blank_text_unknown [OF b] blank_text_unknown [OF e] by simp
qed

end
